theory Spec2Isabelle
  imports Main "HOL-Library.Char_ord" "HOL-Library.List_Lexorder" "HOL-Library.Multiset"
    "HOL-Library.AList"
begin

section \<open>MD-Merger: a shallow embedding of the merge pipeline\<close>

text \<open>
  The development follows \<^verbatim>\<open>markdown_merger_c_l_i.py\<close> and \<^verbatim>\<open>merger_config.py\<close>.
  Python strings are modelled as \<^typ>\<open>string\<close>; the order on strings is the
  lexicographic order on character codes, which is the order Python's \<^verbatim>\<open>sorted\<close>
  and \<^verbatim>\<open>list.sort\<close> use on \<^verbatim>\<open>str\<close>.
\<close>

subsection \<open>String helpers\<close>

definition nl :: char where
  "nl = CHR 0x0A"

text \<open>\<^verbatim>\<open>s.endswith(suf)\<close>\<close>

definition endswith :: "string \<Rightarrow> string \<Rightarrow> bool" where
  "endswith s suf = (length suf \<le> length s \<and> drop (length s - length suf) s = suf)"

text \<open>
  \<^verbatim>\<open>s.lower()\<close>, on the letters \<^verbatim>\<open>A\<close> to \<^verbatim>\<open>Z\<close>. The source only ever compares the
  lowered string with the ASCII suffix \<^verbatim>\<open>.md\<close>, and no other character lowers to one of
  \<^verbatim>\<open>.\<close>, \<^verbatim>\<open>m\<close>, \<^verbatim>\<open>d\<close>.
\<close>

definition lower_char :: "char \<Rightarrow> char" where
  "lower_char c = (if CHR ''A'' \<le> c \<and> c \<le> CHR ''Z'' then char_of (of_char c + (32::nat)) else c)"

definition lower :: "string \<Rightarrow> string" where
  "lower s = map lower_char s"

subsection \<open>Reading a source file\<close>

text \<open>
  The result of \<^verbatim>\<open>open(filepath, 'r', encoding='utf-8')\<close> followed by \<^verbatim>\<open>read()\<close>: the
  decoded text, or the exception raised. The sources are taken to be distinct from the
  destination file, so a read does not depend on what the merge has written.
\<close>

datatype read_error = FileNotFoundError | UnicodeDecodeError | OtherReadError

type_synonym source_files = "string \<Rightarrow> read_error + string"

text \<open>
  \<^verbatim>\<open>read_markdown_file\<close>: every exception is caught and turned into the empty string
  (after a diagnostic on stderr, which is not modelled here).
\<close>

definition read_markdown_file :: "source_files \<Rightarrow> string \<Rightarrow> string" where
  "read_markdown_file src filepath =
     (case src filepath of Inr content \<Rightarrow> content | Inl e \<Rightarrow> [])"

subsection \<open>The destination handle\<close>

text \<open>
  The destination is opened for writing (which creates or truncates it), written to by a
  sequence of \<^verbatim>\<open>write\<close> calls and closed at the end of the \<^verbatim>\<open>with\<close> block. Each of
  these may raise; \<open>write_ok k\<close> tells whether the \<open>k\<close>-th write call succeeds.
  The writes go through a buffer that is flushed to the file at the latest when it is
  closed: when a write or the close raises, the file holds only a prefix of what was
  written, and \<open>flushed\<close> is the length of that prefix.
\<close>

record dest_env =
  open_ok :: bool
  write_ok :: "nat \<Rightarrow> bool"
  close_ok :: bool
  flushed :: nat

record handle =
  written :: string
  nwrites :: nat

text \<open>\<open>Inl h\<close>: the call raised, with the handle as it was; \<open>Inr h\<close>: the handle after the call.\<close>

definition hwrite :: "dest_env \<Rightarrow> string \<Rightarrow> handle \<Rightarrow> handle + handle" where
  "hwrite env s h =
     (if write_ok env (nwrites h)
      then Inr (h\<lparr>written := written h @ s, nwrites := Suc (nwrites h)\<rparr>)
      else Inl h)"

definition bind_w :: "handle + handle \<Rightarrow> (handle \<Rightarrow> handle + handle) \<Rightarrow> handle + handle" where
  "bind_w r f = (case r of Inl h \<Rightarrow> Inl h | Inr h \<Rightarrow> f h)"

subsection \<open>\<^verbatim>\<open>merge_markdown_files\<close>\<close>

text \<open>The f-string \<^verbatim>\<open>f"<!-- Quelle: {filepath} -->\n\n"\<close>.\<close>

definition file_header :: "string \<Rightarrow> string" where
  "file_header filepath = ''<!-- Quelle: '' @ filepath @ '' -->'' @ [nl, nl]"

text \<open>The literal \<^verbatim>\<open>'\n---\n\n'\<close>.\<close>

definition separator :: string where
  "separator = [nl] @ ''---'' @ [nl, nl]"

text \<open>
  The body of the loop \<^verbatim>\<open>for i, filepath in enumerate(files)\<close>, for one file: \<open>n\<close> is
  \<^verbatim>\<open>len(files)\<close> and \<open>i\<close> the index. The test \<^verbatim>\<open>i < len(files) - 1\<close> is on Python
  integers.
\<close>

definition merge_step :: "dest_env \<Rightarrow> source_files \<Rightarrow> bool \<Rightarrow> nat \<Rightarrow> nat \<Rightarrow> string
    \<Rightarrow> handle \<Rightarrow> handle + handle" where
  "merge_step env src add_separators n i filepath h =
     (let content = read_markdown_file src filepath in
      if content = [] then Inr h
      else
        bind_w (hwrite env (file_header filepath) h) (\<lambda>h1.
        bind_w (hwrite env content h1) (\<lambda>h2.
        bind_w (if \<not> endswith content [nl] then hwrite env [nl] h2 else Inr h2) (\<lambda>h3.
        if add_separators \<and> int i < int n - 1 then hwrite env separator h3 else Inr h3))))"

fun merge_loop :: "dest_env \<Rightarrow> source_files \<Rightarrow> bool \<Rightarrow> nat \<Rightarrow> nat \<Rightarrow> string list
    \<Rightarrow> handle \<Rightarrow> handle + handle" where
  "merge_loop env src add_separators n i [] h = Inr h"
| "merge_loop env src add_separators n i (filepath # rest) h =
     bind_w (merge_step env src add_separators n i filepath h)
       (merge_loop env src add_separators n (Suc i) rest)"

text \<open>
  The result of \<^verbatim>\<open>merge_markdown_files\<close>: the returned flag, and the contents of the
  destination file afterwards: \<open>None\<close> when it could not be opened, so was not touched;
  all that was written when the loop and the close succeed; the flushed prefix of it when
  a write or the close raises.
\<close>

record merge_result =
  success :: bool
  destination :: "string option"

definition merge_markdown_files :: "dest_env \<Rightarrow> source_files \<Rightarrow> string list \<Rightarrow> bool
    \<Rightarrow> merge_result" where
  "merge_markdown_files env src files add_separators =
     (if \<not> open_ok env then \<lparr>success = False, destination = None\<rparr>
      else
        (case merge_loop env src add_separators (length files) 0 files
                \<lparr>written = [], nwrites = 0\<rparr> of
           Inl h \<Rightarrow> \<lparr>success = False, destination = Some (take (flushed env) (written h))\<rparr>
         | Inr h \<Rightarrow>
             if close_ok env then \<lparr>success = True, destination = Some (written h)\<rparr>
             else \<lparr>success = False, destination = Some (take (flushed env) (written h))\<rparr>))"

text \<open>A destination on which nothing fails.\<close>

definition good_dest :: dest_env where
  "good_dest = \<lparr>open_ok = True, write_ok = (\<lambda>k. True), close_ok = True, flushed = 0\<rparr>"

text \<open>
  What one file adds to the destination when no write fails: the concatenation of the
  strings that \<open>merge_step\<close> writes for the file at index \<open>i\<close> of \<open>n\<close>.
\<close>

definition contribution :: "source_files \<Rightarrow> bool \<Rightarrow> nat \<Rightarrow> nat \<Rightarrow> string \<Rightarrow> string" where
  "contribution src add_separators n i filepath =
     (let content = read_markdown_file src filepath in
      if content = [] then []
      else file_header filepath @ content
           @ (if \<not> endswith content [nl] then [nl] else [])
           @ (if add_separators \<and> int i < int n - 1 then separator else []))"

subsection \<open>\<^verbatim>\<open>validate_input_files\<close>\<close>

text \<open>
  What \<^verbatim>\<open>os.path.exists\<close>, \<^verbatim>\<open>os.path.isfile\<close> and \<^verbatim>\<open>os.path.isdir\<close> see at a path
  (symbolic links followed).
\<close>

datatype node_kind = Missing | RegularFile | Directory | OtherKind

type_synonym stat = "string \<Rightarrow> node_kind"

definition path_exists :: "stat \<Rightarrow> string \<Rightarrow> bool" where
  "path_exists st p = (st p \<noteq> Missing)"

definition isfile :: "stat \<Rightarrow> string \<Rightarrow> bool" where
  "isfile st p = (st p = RegularFile)"

definition isdir :: "stat \<Rightarrow> string \<Rightarrow> bool" where
  "isdir st p = (st p = Directory)"

text \<open>The three warnings printed on stderr, each naming the rejected path.\<close>

datatype warning = DoesNotExist string | IsNotAFile string | IsNotMarkdown string

text \<open>
  The loop of \<^verbatim>\<open>validate_input_files\<close>, with the list \<^verbatim>\<open>valid_files\<close> it appends to
  and the warnings printed so far.
\<close>

fun validate_loop :: "stat \<Rightarrow> string list \<Rightarrow> string list \<Rightarrow> warning list
    \<Rightarrow> string list \<times> warning list" where
  "validate_loop st [] valid_files warnings = (valid_files, warnings)"
| "validate_loop st (file # rest) valid_files warnings =
     (if \<not> path_exists st file
        then validate_loop st rest valid_files (warnings @ [DoesNotExist file])
      else if \<not> isfile st file
        then validate_loop st rest valid_files (warnings @ [IsNotAFile file])
      else if \<not> endswith (lower file) ''.md''
        then validate_loop st rest valid_files (warnings @ [IsNotMarkdown file])
      else validate_loop st rest (valid_files @ [file]) warnings)"

definition validate_input_files :: "stat \<Rightarrow> string list \<Rightarrow> string list \<times> warning list" where
  "validate_input_files st files =
     (case validate_loop st files [] [] of
        (valid_files, warnings) \<Rightarrow> (sort valid_files, warnings))"

text \<open>\<^verbatim>\<open>os.path.basename\<close> (POSIX): what follows the last slash.\<close>

fun basename :: "string \<Rightarrow> string" where
  "basename [] = []"
| "basename (c # cs) = (if CHR ''/'' \<in> set cs then basename cs else if c = CHR ''/'' then cs else c # cs)"

text \<open>
  The validity of a path as the specification words it: it exists, is a regular file,
  and its name ends with \<^verbatim>\<open>.md\<close>, case-insensitively.
\<close>

definition valid_markdown_path :: "stat \<Rightarrow> string \<Rightarrow> bool" where
  "valid_markdown_path st p =
     (st p \<noteq> Missing \<and> st p = RegularFile \<and> endswith (lower (basename p)) ''.md'')"

text \<open>
  The warning a rejected path gets: that it does not exist, that it is not a file, or
  that it is not a Markdown file, in this order of tests.
\<close>

definition rejection_warning :: "stat \<Rightarrow> string \<Rightarrow> warning" where
  "rejection_warning st p =
     (if st p = Missing then DoesNotExist p
      else if st p \<noteq> RegularFile then IsNotAFile p
      else IsNotMarkdown p)"

subsection \<open>\<^verbatim>\<open>collect_md_files_from_directory\<close>\<close>

text \<open>
  A directory tree: the entries of a directory in the order \<^verbatim>\<open>os.scandir\<close> lists them,
  each a name with what is there. A subdirectory that \<^verbatim>\<open>os.walk\<close> lists but does not
  descend into (a symbolic link, an unreadable directory) yields no file, as an empty
  directory does, and is modelled as one.
\<close>

datatype fsnode = FileN | DirN "(string \<times> fsnode) list"

definition isdir_node :: "fsnode \<Rightarrow> bool" where
  "isdir_node n = (case n of DirN es \<Rightarrow> True | FileN \<Rightarrow> False)"

text \<open>\<^verbatim>\<open>os.path.join(a, b)\<close> (POSIX).\<close>

definition join :: "string \<Rightarrow> string \<Rightarrow> string" where
  "join a b =
     (if take 1 b = ''/'' then b
      else if a = [] \<or> endswith a ''/'' then a @ b
      else a @ ''/'' @ b)"

text \<open>
  \<^verbatim>\<open>os.walk(top)\<close>, top-down: the triple \<^verbatim>\<open>(top, dirs, nondirs)\<close> of a directory is
  yielded before its subdirectories are walked, and the walk then follows the list
  \<^verbatim>\<open>dirs\<close> as the consumer has left it; \<open>f\<close> is what the consumer does to that list in
  place. A path that cannot be scanned (a file, a name that is not there) yields nothing:
  \<^verbatim>\<open>os.walk\<close> ignores the error.
\<close>

function walk :: "(string list \<Rightarrow> string list) \<Rightarrow> string \<Rightarrow> fsnode
    \<Rightarrow> (string \<times> string list \<times> string list) list" where
  "walk f root_path FileN = []"
| "walk f root_path (DirN es) =
     (let dirs = map fst (filter (\<lambda>e. isdir_node (snd e)) es);
          nondirs = map fst (filter (\<lambda>e. \<not> isdir_node (snd e)) es)
      in (root_path, dirs, nondirs) #
         concat (map (\<lambda>dirname. case map_of es dirname of
                                  Some sub \<Rightarrow> walk f (join root_path dirname) sub
                                | None \<Rightarrow> [])
                     (f dirs)))"
  by pat_completeness auto
termination
proof (relation "measure (\<lambda>(f, p, n). size n)")
  show "wf (measure (\<lambda>(f :: string list \<Rightarrow> string list, p :: string, n :: fsnode). size n))"
    by simp
next
  fix f :: "string list \<Rightarrow> string list" and root_path :: string
    and es :: "(string \<times> fsnode) list" and dirs nondirs :: "string list"
    and dirname :: string and sub :: fsnode
  assume "map_of es dirname = Some sub"
  then have mem: "(dirname, sub) \<in> set es"
    by (rule map_of_SomeD)
  have "(k, v) \<in> set xs \<Longrightarrow> size v < Suc (size_list (size_prod (\<lambda>x. 0) size) xs)"
    for k :: string and v :: fsnode and xs
    by (induction xs) auto
  from this [OF mem]
  show "((f, join root_path dirname, sub), f, root_path, DirN es)
          \<in> measure (\<lambda>(f, p, n). size n)"
    by simp
qed

text \<open>
  The loop over the walk: \<^verbatim>\<open>dirs.sort()\<close> is the consumer's change to \<^verbatim>\<open>dirs\<close>, and
  each directory contributes \<^verbatim>\<open>os.path.join(root, file)\<close> for the files of
  \<^verbatim>\<open>sorted(files)\<close> that end with \<^verbatim>\<open>.md\<close> once lowered. The second argument is what
  is at the path \<open>directory\<close>, if anything.
\<close>

definition collect_md_files_from_directory :: "string \<Rightarrow> fsnode option \<Rightarrow> string list" where
  "collect_md_files_from_directory directory node =
     concat (map (\<lambda>(root_path, dirs, files).
                    map (join root_path)
                      (filter (\<lambda>file. endswith (lower file) ''.md'') (sort files)))
                 (case node of None \<Rightarrow> [] | Some n \<Rightarrow> walk sort directory n))"

text \<open>
  The traversal as the specification words it: at every level the matching files in
  ascending order of name, then the subdirectories in ascending order of name, each
  traversed the same way.
\<close>

fun from_directory_spec :: "string \<Rightarrow> fsnode \<Rightarrow> string list" where
  "from_directory_spec root_path FileN = []"
| "from_directory_spec root_path (DirN es) =
     map (join root_path)
       (sort (filter (\<lambda>name. endswith (lower name) ''.md'')
                (map fst (filter (\<lambda>e. \<not> isdir_node (snd e)) es))))
     @ concat (map (\<lambda>(name, sub). from_directory_spec (join root_path name) sub)
                 (sort_key fst (filter (\<lambda>e. isdir_node (snd e)) es)))"

text \<open>No directory of the tree lists a name twice.\<close>

fun distinct_names :: "fsnode \<Rightarrow> bool" where
  "distinct_names FileN = True"
| "distinct_names (DirN es) = (distinct (map fst es) \<and> list_all (\<lambda>e. distinct_names (snd e)) es)"

subsection \<open>\<^verbatim>\<open>MergerConfig\<close>\<close>

text \<open>
  The values a parsed YAML or JSON document is made of. A \<^verbatim>\<open>dict\<close> is the list of its
  items in insertion order; keys are strings, as in the configuration tree.
\<close>

datatype pyval =
    VNone
  | VBool bool
  | VInt int
  | VStr string
  | VList "pyval list"
  | VDict (items: "(string \<times> pyval) list")

type_synonym pydict = "(string \<times> pyval) list"

text \<open>\<^verbatim>\<open>isinstance(v, dict)\<close>\<close>

definition isinstance_dict :: "pyval \<Rightarrow> bool" where
  "isinstance_dict v = (case v of VDict d \<Rightarrow> True | _ \<Rightarrow> False)"

text \<open>\<^verbatim>\<open>_load_default_config\<close>\<close>

definition default_config :: pydict where
  "default_config =
     [(''output'', VDict
         [(''encoding'', VStr ''utf-8''),
          (''line_ending'', VStr [nl]),
          (''add_toc'', VBool False),
          (''add_timestamps'', VBool False)]),
      (''processing'', VDict
         [(''skip_empty_files'', VBool True),
          (''normalize_line_endings'', VBool True),
          (''remove_duplicate_headers'', VBool False)]),
      (''separators'', VDict
         [(''between_files'', VStr ''---''),
          (''add_file_headers'', VBool True),
          (''header_format'', VStr ''<!-- Quelle: {filepath} -->'')]),
      (''filters'', VDict
         [(''exclude_patterns'', VList [VStr ''.git'', VStr ''__pycache__'', VStr ''.DS_Store'']),
          (''include_only'', VList [VStr ''.md'']),
          (''max_file_size_mb'', VInt 10)])]"

text \<open>
  \<^verbatim>\<open>_deep_merge(base, update)\<close> with \<^verbatim>\<open>update\<close> a dict: the loop over
  \<^verbatim>\<open>update.items()\<close>. The source changes \<^verbatim>\<open>base\<close> in place; the model returns it.
  The assignment \<^verbatim>\<open>base[key] = value\<close> is \<^const>\<open>AList.update\<close>: an existing key
  keeps its place, a new one goes to the end.
\<close>

function deep_merge :: "pydict \<Rightarrow> pydict \<Rightarrow> pydict" where
  "deep_merge base [] = base"
| "deep_merge base ((key, value) # rest) =
     (if isinstance_dict value \<and> key \<in> fst ` set base
         \<and> isinstance_dict (the (map_of base key))
      then deep_merge
             (AList.update key
                (VDict (deep_merge (items (the (map_of base key))) (items value))) base)
             rest
      else deep_merge (AList.update key value base) rest)"
  by pat_completeness auto
termination
proof (relation "measure (\<lambda>(b, u). size_list (size_prod (\<lambda>k. 0) size) u)")
  fix base :: pydict and key "value" rest
  assume "isinstance_dict value \<and> key \<in> fst ` set base
    \<and> isinstance_dict (the (map_of base key))"
  then obtain u where "value = VDict u"
    by (cases "value") (auto simp: isinstance_dict_def)
  then show "((items (the (map_of base key)), items value), base, (key, value) # rest)
       \<in> measure (\<lambda>(b, u). size_list (size_prod (\<lambda>k. 0) size) u)"
    by simp
qed auto

text \<open>
  Why loading a configuration file can fail. The last one is the \<^verbatim>\<open>AttributeError\<close> of
  \<^verbatim>\<open>update.items()\<close> when the parsed document is not a dict.
\<close>

datatype config_error = OpenFailed | ParseFailed | UnsupportedFormat | NotAMapping

text \<open>
  The file system and the two parsers as \<^verbatim>\<open>_load_config_file\<close> sees them:
  \<open>open_config\<close> gives the contents of the file at a path, or \<open>None\<close> when \<^verbatim>\<open>open\<close>
  raises; the parsers give the parsed document, or \<open>None\<close> when they raise.
\<close>

record config_env =
  open_config :: "string \<Rightarrow> string option"
  yaml_safe_load :: "string \<Rightarrow> pyval option"
  json_load :: "string \<Rightarrow> pyval option"

text \<open>The call \<^verbatim>\<open>self._deep_merge(self.config, user_config)\<close> on any parsed document.\<close>

definition deep_merge_document :: "pydict \<Rightarrow> pyval \<Rightarrow> config_error + pydict" where
  "deep_merge_document base user_config =
     (if isinstance_dict user_config then Inr (deep_merge base (items user_config))
      else Inl NotAMapping)"

text \<open>The body of the \<^verbatim>\<open>try\<close> block of \<^verbatim>\<open>_load_config_file\<close>.\<close>

definition load_config_try :: "config_env \<Rightarrow> string \<Rightarrow> pydict \<Rightarrow> config_error + pydict" where
  "load_config_try env config_file base =
     (case open_config env config_file of
        None \<Rightarrow> Inl OpenFailed
      | Some text \<Rightarrow>
          if endswith config_file ''.yaml'' \<or> endswith config_file ''.yml'' then
            (case yaml_safe_load env text of
               None \<Rightarrow> Inl ParseFailed
             | Some user_config \<Rightarrow> deep_merge_document base user_config)
          else if endswith config_file ''.json'' then
            (case json_load env text of
               None \<Rightarrow> Inl ParseFailed
             | Some user_config \<Rightarrow> deep_merge_document base user_config)
          else Inl UnsupportedFormat)"

text \<open>
  \<^verbatim>\<open>_load_config_file\<close>: the configuration afterwards and the warnings printed. The
  handler \<^verbatim>\<open>except Exception\<close> catches every failure of the body.
\<close>

definition load_config_file :: "config_env \<Rightarrow> string \<Rightarrow> pydict \<Rightarrow> pydict \<times> config_error list" where
  "load_config_file env config_file base =
     (case load_config_try env config_file base of
        Inl e \<Rightarrow> (base, [e])
      | Inr merged \<Rightarrow> (merged, []))"

text \<open>
  \<^verbatim>\<open>MergerConfig.__init__\<close>; \<^verbatim>\<open>if config_file:\<close> holds for a string that is not empty.
\<close>

definition MergerConfig_init :: "config_env \<Rightarrow> string option \<Rightarrow> pydict \<times> config_error list" where
  "MergerConfig_init env config_file =
     (case config_file of
        None \<Rightarrow> (default_config, [])
      | Some f \<Rightarrow> if f = [] then (default_config, []) else load_config_file env f default_config)"

text \<open>\<^verbatim>\<open>key.split('.')\<close>\<close>

fun split_on :: "char \<Rightarrow> string \<Rightarrow> string list" where
  "split_on c [] = [[]]"
| "split_on c (x # xs) =
     (if x = c then [] # split_on c xs
      else (case split_on c xs of s # ss \<Rightarrow> (x # s) # ss | [] \<Rightarrow> [[x]]))"

text \<open>The loop of \<^verbatim>\<open>MergerConfig.get\<close> over the keys of the path.\<close>

fun get_path :: "pyval \<Rightarrow> string list \<Rightarrow> pyval \<Rightarrow> pyval" where
  "get_path v [] d = v"
| "get_path v (k # ks) d =
     (if isinstance_dict v \<and> k \<in> fst ` set (items v)
      then get_path (the (map_of (items v) k)) ks d
      else d)"

definition MergerConfig_get :: "pydict \<Rightarrow> string \<Rightarrow> pyval \<Rightarrow> pyval" where
  "MergerConfig_get config key d = get_path (VDict config) (split_on CHR ''.'' key) d"

text \<open>A key path has a value in a tree: the descent of \<^verbatim>\<open>get\<close> reaches its end.\<close>

fun has_path :: "pyval \<Rightarrow> string list \<Rightarrow> bool" where
  "has_path v [] = True"
| "has_path v (k # ks) =
     (isinstance_dict v \<and> k \<in> fst ` set (items v) \<and> has_path (the (map_of (items v) k)) ks)"

text \<open>
  An override keeps the shape of a tree: it gives a mapping wherever it gives a value to
  a key that holds a mapping in the tree.
\<close>

function keeps_shape :: "pydict \<Rightarrow> pydict \<Rightarrow> bool" where
  "keeps_shape base [] = True"
| "keeps_shape base ((key, value) # rest) =
     ((if key \<in> fst ` set base \<and> isinstance_dict (the (map_of base key))
       then (if isinstance_dict value
             then keeps_shape (items (the (map_of base key))) (items value)
             else False)
       else True)
      \<and> keeps_shape base rest)"
  by pat_completeness auto
termination
proof (relation "measure (\<lambda>(b, u). size_list (size_prod (\<lambda>k. 0) size) u)")
  fix base :: pydict and key "value" rest
  assume "key \<in> fst ` set base \<and> isinstance_dict (the (map_of base key))"
    and "isinstance_dict value"
  then obtain u where "value = VDict u"
    by (cases "value") (auto simp: isinstance_dict_def)
  then show "((items (the (map_of base key)), items value), base, (key, value) # rest)
       \<in> measure (\<lambda>(b, u). size_list (size_prod (\<lambda>k. 0) size) u)"
    by simp
qed auto

subsection \<open>\<^verbatim>\<open>main\<close>\<close>

text \<open>
  The parsed command line: either \<^verbatim>\<open>--files\<close> or \<^verbatim>\<open>--directory\<close> (the two exclude
  each other and one is required; \<^verbatim>\<open>--files\<close> takes at least one path).
\<close>

datatype input_source = Files "string list" | FromDirectory string

record args =
  input_arg :: input_source
  output_arg :: string
  no_separators :: bool
  force :: bool

text \<open>
  What \<^verbatim>\<open>main\<close> meets outside: the kinds of the paths, the tree under a path, the
  contents of the sources, the destination, and the answer typed at the overwrite prompt.
\<close>

record world =
  kind_at :: stat
  tree_at :: "string \<Rightarrow> fsnode option"
  sources :: source_files
  dest :: dest_env
  response :: string

text \<open>The conditions on which \<^verbatim>\<open>main\<close> prints an error and calls \<^verbatim>\<open>sys.exit(1)\<close>.\<close>

datatype fatal =
    TooFewFilesGiven
  | DirectoryNotFound
  | NotADirectory
  | NoValidFiles
  | TooFewValidFiles

text \<open>The section \<^verbatim>\<open># Sammle Eingabedateien\<close> of \<^verbatim>\<open>main\<close>.\<close>

definition main_input_files :: "world \<Rightarrow> input_source \<Rightarrow> fatal + string list" where
  "main_input_files w src =
     (case src of
        Files fs \<Rightarrow>
          if length fs < 2 then Inl TooFewFilesGiven
          else Inr (fst (validate_input_files (kind_at w) fs))
      | FromDirectory d \<Rightarrow>
          if \<not> path_exists (kind_at w) d then Inl DirectoryNotFound
          else if \<not> isdir (kind_at w) d then Inl NotADirectory
          else Inr (fst (validate_input_files (kind_at w)
                      (collect_md_files_from_directory d (tree_at w d)))))"

text \<open>
  How a run of \<^verbatim>\<open>main\<close> ends: with an error before the destination is opened, with the
  operator declining to overwrite, or with the result of the merge.
\<close>

datatype outcome = Fatal fatal | Aborted | Merged merge_result

definition main :: "world \<Rightarrow> args \<Rightarrow> outcome" where
  "main w a =
     (case main_input_files w (input_arg a) of
        Inl e \<Rightarrow> Fatal e
      | Inr input_files \<Rightarrow>
          if input_files = [] then Fatal NoValidFiles
          else if length input_files < 2 then Fatal TooFewValidFiles
          else if path_exists (kind_at w) (output_arg a) \<and> \<not> force a
                  \<and> lower (response w) \<notin> set [''j'', ''ja'', ''y'', ''yes'']
            then Aborted
          else Merged (merge_markdown_files (dest w) (sources w) input_files
                         (\<not> no_separators a)))"

text \<open>The exit status of the process.\<close>

definition exit_code :: "outcome \<Rightarrow> nat" where
  "exit_code out =
     (case out of
        Fatal e \<Rightarrow> 1
      | Aborted \<Rightarrow> 0
      | Merged r \<Rightarrow> if success r then 0 else 1)"

subsection \<open>Example inputs\<close>

text \<open>
  Three sources: \<^verbatim>\<open>A.md\<close> holds \<^verbatim>\<open>foo\<close> with no final newline, \<^verbatim>\<open>B.md\<close> holds
  \<^verbatim>\<open>bar\<close> and a newline, \<^verbatim>\<open>E.md\<close> exists and is empty; nothing else can be read.
\<close>

definition src_example :: source_files where
  "src_example p =
     (if p = ''A.md'' then Inr ''foo''
      else if p = ''B.md'' then Inr (''bar'' @ [nl])
      else if p = ''E.md'' then Inr []
      else Inl FileNotFoundError)"

text \<open>
  An override document that switches the file headers off and replaces the header
  template, as \<^verbatim>\<open>json.load\<close> returns it for
  \<^verbatim>\<open>{"separators": {"add_file_headers": false, "header_format": "## {filepath}"}}\<close>.
\<close>

definition headers_off :: pyval where
  "headers_off =
     VDict [(''separators'', VDict
        [(''add_file_headers'', VBool False), (''header_format'', VStr ''## {filepath}'')])]"

definition env_headers_off :: config_env where
  "env_headers_off =
     \<lparr>open_config = (\<lambda>p. if p = ''merger.json'' then Some ''{...}'' else None),
      yaml_safe_load = (\<lambda>t. None),
      json_load = (\<lambda>t. Some headers_off)\<rparr>"

text \<open>
  Paths as the validator may meet them: two Markdown files, a text file, a directory;
  nothing else exists.
\<close>

definition stat_example :: stat where
  "stat_example p =
     (if p = ''b.md'' \<or> p = ''a.MD'' \<or> p = ''notes.txt'' then RegularFile
      else if p = ''docs'' then Directory
      else Missing)"

text \<open>
  A configuration environment in which every load fails: \<^verbatim>\<open>missing.yaml\<close> cannot be
  opened, every other file holds its own name, the YAML parser accepts only
  \<^verbatim>\<open>scalar.yml\<close> (a string) and the JSON parser only \<^verbatim>\<open>list.json\<close> (a list).
\<close>

definition env_broken :: config_env where
  "env_broken =
     \<lparr>open_config = (\<lambda>p. if p = ''missing.yaml'' then None else Some p),
      yaml_safe_load = (\<lambda>t. if t = ''scalar.yml'' then Some (VStr ''text'') else None),
      json_load = (\<lambda>t. if t = ''list.json'' then Some (VList [VInt 1]) else None)\<rparr>"

text \<open>A world around \<^verbatim>\<open>main\<close>, with an empty directory \<^verbatim>\<open>docs\<close>.\<close>

definition world_example :: world where
  "world_example =
     \<lparr>kind_at = stat_example,
      tree_at = (\<lambda>p. if p = ''docs'' then Some (DirN []) else if p = ''b.md'' then Some FileN else None),
      sources = src_example,
      dest = good_dest,
      response = ''n''\<rparr>"

text \<open>The \<^verbatim>\<open>separators\<close> section of the default configuration.\<close>

definition default_separators :: pydict where
  "default_separators =
     [(''between_files'', VStr ''---''),
      (''add_file_headers'', VBool True),
      (''header_format'', VStr ''<!-- Quelle: {filepath} -->'')]"

text \<open>The override \<^verbatim>\<open>{"separators": {"between_files": "***"}}\<close>.\<close>

definition only_between_files :: pydict where
  "only_between_files = [(''separators'', VDict [(''between_files'', VStr ''***'')])]"

text \<open>
  Two directory trees, in the order the system lists their entries: the one of the
  specification's example, and one with upper-case suffixes, a file that is not Markdown
  and nested directories.
\<close>

definition tree_example :: fsnode where
  "tree_example = DirN [(''b.md'', FileN), (''sub'', DirN [(''c.md'', FileN)]), (''a.md'', FileN)]"

definition tree_mixed :: fsnode where
  "tree_mixed =
     DirN [(''z'', DirN [(''q.md'', FileN)]),
           (''b.MD'', FileN),
           (''notes.txt'', FileN),
           (''a'', DirN [(''y.md'', FileN), (''x.Md'', FileN), (''empty'', DirN [])]),
           (''a.md'', FileN)]"

section \<open>Properties of the merge\<close>

subsection \<open>The loop when no write fails\<close>

lemma merge_step_all_writes_ok:
  assumes "\<forall>k. write_ok env k"
  shows "\<exists>h'. merge_step env src sep n i p h = Inr h'
           \<and> written h' = written h @ contribution src sep n i p"
  using assms by (simp add: merge_step_def contribution_def Let_def bind_w_def hwrite_def)

lemma merge_loop_all_writes_ok:
  assumes "\<forall>k. write_ok env k"
  shows "\<exists>h'. merge_loop env src sep n i ps h = Inr h'
           \<and> written h' = written h
               @ concat (map (\<lambda>(j, p). contribution src sep n j p) (enumerate i ps))"
proof (induction ps arbitrary: i h)
  case Nil
  show ?case by simp
next
  case (Cons p ps)
  obtain h1 where h1: "merge_step env src sep n i p h = Inr h1"
      "written h1 = written h @ contribution src sep n i p"
    using merge_step_all_writes_ok [OF assms] by blast
  obtain h2 where h2: "merge_loop env src sep n (Suc i) ps h1 = Inr h2"
      "written h2 = written h1
         @ concat (map (\<lambda>(j, p). contribution src sep n j p) (enumerate (Suc i) ps))"
    using Cons.IH by blast
  show ?case
    using h1 h2 by (simp add: bind_w_def)
qed

lemma merge_all_writes_ok:
  assumes "open_ok env" and "\<forall>k. write_ok env k" and "close_ok env"
  shows "merge_markdown_files env src files sep =
     \<lparr>success = True,
      destination = Some (concat (map (\<lambda>(j, p). contribution src sep (length files) j p)
                                    (enumerate 0 files)))\<rparr>"
proof -
  obtain h' where
    "merge_loop env src sep (length files) 0 files \<lparr>written = [], nwrites = 0\<rparr> = Inr h'"
    and "written h' = concat (map (\<lambda>(j, p). contribution src sep (length files) j p)
                                (enumerate 0 files))"
    using merge_loop_all_writes_ok [OF assms(2), of src sep "length files" 0 files
        "\<lparr>written = [], nwrites = 0\<rparr>"]
    by auto
  then show ?thesis
    using assms(1) assms(3) by (simp add: merge_markdown_files_def)
qed

text \<open>When only the close fails, the file is left with the flushed prefix.\<close>

lemma merge_failed_close:
  assumes "open_ok env" and "\<forall>k. write_ok env k" and "\<not> close_ok env"
  shows "merge_markdown_files env src files sep =
     \<lparr>success = False,
      destination = Some (take (flushed env)
        (concat (map (\<lambda>(j, p). contribution src sep (length files) j p) (enumerate 0 files))))\<rparr>"
proof -
  obtain h' where
    "merge_loop env src sep (length files) 0 files \<lparr>written = [], nwrites = 0\<rparr> = Inr h'"
    and "written h' = concat (map (\<lambda>(j, p). contribution src sep (length files) j p)
                                (enumerate 0 files))"
    using merge_loop_all_writes_ok [OF assms(2), of src sep "length files" 0 files
        "\<lparr>written = [], nwrites = 0\<rparr>"]
    by auto
  then show ?thesis
    using assms(1) assms(3) by (simp add: merge_markdown_files_def)
qed

subsection \<open>Skipped files\<close>

lemma merge_step_skip:
  "read_markdown_file src p = [] \<Longrightarrow> merge_step env src sep n i p h = Inr h"
  by (simp add: merge_step_def)

lemma merge_loop_all_skipped:
  "\<forall>p \<in> set ps. read_markdown_file src p = [] \<Longrightarrow> merge_loop env src sep n i ps h = Inr h"
  by (induction ps arbitrary: i) (simp_all add: merge_step_skip bind_w_def)

lemma read_markdown_file_failed_or_empty:
  assumes "src p = Inr []"
  shows "read_markdown_file (src(p := Inl e)) = read_markdown_file src"
  using assms by (auto simp: read_markdown_file_def fun_eq_iff)

lemma merge_step_read_cong:
  "read_markdown_file src1 = read_markdown_file src2 \<Longrightarrow> merge_step env src1 = merge_step env src2"
  by (simp add: merge_step_def fun_eq_iff)

lemma merge_loop_read_cong:
  "read_markdown_file src1 = read_markdown_file src2 \<Longrightarrow>
   merge_loop env src1 sep n i ps h = merge_loop env src2 sep n i ps h"
proof (induction ps arbitrary: i h)
  case Nil
  show ?case by simp
next
  case (Cons p ps)
  have "merge_step env src1 = merge_step env src2"
    using Cons.prems by (rule merge_step_read_cong)
  then show ?case
    using Cons.IH [OF Cons.prems] by (simp add: bind_w_def split: sum.splits)
qed

subsection \<open>File headers\<close>

text \<open>
  Claim C1, as stated, fails: \<^verbatim>\<open>merge_markdown_files\<close> takes no configuration and never
  consults \<^verbatim>\<open>MergerConfig\<close>. With an override that resolves
  \<^verbatim>\<open>separators.add_file_headers\<close> to false and \<^verbatim>\<open>separators.header_format\<close> to
  another template, the merge of \<^verbatim>\<open>A.md\<close> and \<^verbatim>\<open>B.md\<close> still writes the line
  \<^verbatim>\<open><!-- Quelle: ... -->\<close> before each file.
\<close>

theorem header_ignores_configuration:
  "MergerConfig_get (fst (MergerConfig_init env_headers_off (Some ''merger.json'')))
      ''separators.add_file_headers'' VNone = VBool False
   \<and> MergerConfig_get (fst (MergerConfig_init env_headers_off (Some ''merger.json'')))
      ''separators.header_format'' VNone = VStr ''## {filepath}''
   \<and> destination (merge_markdown_files good_dest src_example [''A.md'', ''B.md''] True) =
      Some (''<!-- Quelle: A.md -->'' @ [nl, nl] @ ''foo'' @ [nl, nl] @ ''---'' @ [nl, nl]
        @ ''<!-- Quelle: B.md -->'' @ [nl, nl] @ ''bar'' @ [nl])"
  by (simp add: MergerConfig_get_def MergerConfig_init_def env_headers_off_def headers_off_def
      load_config_file_def load_config_try_def deep_merge_document_def default_config_def
      isinstance_dict_def endswith_def
      merge_markdown_files_def good_dest_def merge_step_def bind_w_def hwrite_def
      read_markdown_file_def file_header_def separator_def nl_def src_example_def)

text \<open>
  Claim C1, amended: the merge does not depend on any configuration. When the destination
  opens, no write fails and the close succeeds, the destination holds the contributions of the files in list
  order; the contribution of every file whose content is not empty begins with the fixed
  line \<^verbatim>\<open><!-- Quelle: <path> -->\<close>, a blank line and the content, and a file whose
  content is empty contributes nothing.
\<close>

theorem merge_header_is_fixed:
  assumes "open_ok env" and "\<forall>k. write_ok env k" and "close_ok env"
  shows "destination (merge_markdown_files env src files sep) =
           Some (concat (map (\<lambda>(i, p). contribution src sep (length files) i p)
                           (enumerate 0 files)))
       \<and> (\<forall>n i p. read_markdown_file src p \<noteq> [] \<longrightarrow>
            (\<exists>rest. contribution src sep n i p =
               (''<!-- Quelle: '' @ p @ '' -->'' @ [nl]) @ [nl] @ read_markdown_file src p @ rest))
       \<and> (\<forall>n i p. read_markdown_file src p = [] \<longrightarrow> contribution src sep n i p = [])"
  using assms
  by (simp add: merge_all_writes_ok) (simp add: contribution_def file_header_def Let_def)

theorem merge_header_is_fixed_witness:
  "open_ok good_dest \<and> (\<forall>k. write_ok good_dest k) \<and> close_ok good_dest
   \<and> destination (merge_markdown_files good_dest src_example [''A.md'', ''E.md'', ''B.md''] False) =
      Some (''<!-- Quelle: A.md -->'' @ [nl, nl] @ ''foo'' @ [nl]
        @ ''<!-- Quelle: B.md -->'' @ [nl, nl] @ ''bar'' @ [nl])"
  using merge_header_is_fixed [of good_dest src_example "[''A.md'', ''E.md'', ''B.md'']" False]
  by (simp add: good_dest_def contribution_def enumerate_eq_zip read_markdown_file_def
      src_example_def file_header_def endswith_def nl_def upt_rec)

subsection \<open>Separators\<close>

text \<open>
  Claim C2 (no separator follows the last file that contributed, even when later files
  were skipped): the code tests the index against the length of the input list, so when
  the last file of the list is skipped the separator is still written after the file
  before it. Merging \<^verbatim>\<open>A.md\<close> (content \<^verbatim>\<open>foo\<close>) and the empty file \<^verbatim>\<open>E.md\<close> with
  separators leaves the destination ending in the separator.
\<close>

theorem separator_after_last_contribution:
  "merge_markdown_files good_dest src_example [''A.md'', ''E.md''] True =
    \<lparr>success = True,
     destination = Some (''<!-- Quelle: A.md -->'' @ [nl, nl] @ ''foo'' @ [nl]
        @ [nl] @ ''---'' @ [nl, nl])\<rparr>"
  by (simp add: merge_markdown_files_def good_dest_def merge_step_def bind_w_def hwrite_def
      read_markdown_file_def file_header_def separator_def endswith_def nl_def src_example_def)

subsection \<open>Two files\<close>

text \<open>
  Claim C3: merging two readable files \<open>A\<close> with content \<^verbatim>\<open>foo\<close> and \<open>B\<close> with content
  \<^verbatim>\<open>bar\<close> and a newline, with separators, writes in order: the header line of \<open>A\<close>, a
  blank line, \<^verbatim>\<open>foo\<close> with a newline appended, a blank line, the line \<^verbatim>\<open>---\<close>, a blank
  line, the header line of \<open>B\<close>, a blank line, and \<^verbatim>\<open>bar\<close> with its own newline and
  nothing after it.
\<close>

theorem merge_two_files:
  assumes "src A = Inr ''foo''" and "src B = Inr (''bar'' @ [nl])"
  shows "merge_markdown_files good_dest src [A, B] True =
    \<lparr>success = True,
     destination = Some ((''<!-- Quelle: '' @ A @ '' -->'' @ [nl]) @ [nl] @ (''foo'' @ [nl])
        @ [nl] @ (''---'' @ [nl]) @ [nl]
        @ (''<!-- Quelle: '' @ B @ '' -->'' @ [nl]) @ [nl] @ (''bar'' @ [nl]))\<rparr>"
  using assms
  by (simp add: merge_markdown_files_def good_dest_def merge_step_def bind_w_def hwrite_def
      read_markdown_file_def file_header_def separator_def endswith_def nl_def)

theorem merge_two_files_witness:
  "src_example ''A.md'' = Inr ''foo'' \<and> src_example ''B.md'' = Inr (''bar'' @ [nl]) \<and>
   merge_markdown_files good_dest src_example [''A.md'', ''B.md''] True =
    \<lparr>success = True,
     destination = Some (''<!-- Quelle: A.md -->'' @ [nl, nl] @ ''foo'' @ [nl, nl]
        @ ''---'' @ [nl, nl] @ ''<!-- Quelle: B.md -->'' @ [nl, nl] @ ''bar'' @ [nl])\<rparr>"
  using merge_two_files [of src_example "''A.md''" "''B.md''"]
  by (simp add: src_example_def)

subsection \<open>Success without content\<close>

text \<open>
  Claim C9: the merge returns true whenever the destination opens, every write succeeds
  and the close succeeds; and when every source is skipped (unreadable or empty) it
  returns true and leaves the destination created and empty, whatever the writes would
  have done. So success says nothing about how much was written.
\<close>

theorem merge_success_without_content:
  "(open_ok env \<and> close_ok env \<and> (\<forall>k. write_ok env k)
      \<longrightarrow> success (merge_markdown_files env src files sep))
   \<and> (open_ok env \<and> close_ok env \<and> (\<forall>p \<in> set files. read_markdown_file src p = [])
      \<longrightarrow> merge_markdown_files env src files sep = \<lparr>success = True, destination = Some []\<rparr>)"
proof (intro conjI impI)
  assume "open_ok env \<and> close_ok env \<and> (\<forall>k. write_ok env k)"
  then show "success (merge_markdown_files env src files sep)"
    by (simp add: merge_all_writes_ok)
next
  assume "open_ok env \<and> close_ok env \<and> (\<forall>p \<in> set files. read_markdown_file src p = [])"
  then show "merge_markdown_files env src files sep = \<lparr>success = True, destination = Some []\<rparr>"
    by (simp add: merge_markdown_files_def merge_loop_all_skipped)
qed

theorem merge_success_without_content_witness:
  "open_ok good_dest \<and> close_ok good_dest \<and> (\<forall>k. write_ok good_dest k)
   \<and> read_markdown_file src_example ''E.md'' = []
   \<and> read_markdown_file src_example ''missing.md'' = []
   \<and> success (merge_markdown_files good_dest src_example [''E.md'', ''missing.md''] True)
   \<and> merge_markdown_files good_dest src_example [''E.md'', ''missing.md''] True =
       \<lparr>success = True, destination = Some []\<rparr>"
  using merge_success_without_content
    [of good_dest src_example "[''E.md'', ''missing.md'']" True]
  by (simp add: good_dest_def read_markdown_file_def src_example_def)

subsection \<open>Empty sources\<close>

text \<open>
  Claim C10: a source that is read successfully and is empty contributes nothing: its
  step of the loop leaves the destination handle as it was (no header, no blank line, no
  newline), and the whole merge is the same as if reading that source had failed. The
  merge takes no configuration, so no flag such as \<^verbatim>\<open>processing.skip_empty_files\<close> can
  change this.
\<close>

theorem empty_source_contributes_nothing:
  assumes "src p = Inr []"
  shows "contribution src sep n i p = []
     \<and> merge_step env src sep n i p h = Inr h
     \<and> merge_markdown_files env (src(p := Inl e)) files sep
         = merge_markdown_files env src files sep"
proof -
  have "read_markdown_file (src(p := Inl e)) = read_markdown_file src"
    using assms by (rule read_markdown_file_failed_or_empty)
  then have "merge_loop env (src(p := Inl e)) sep (length files) 0 files h0
           = merge_loop env src sep (length files) 0 files h0" for h0
    by (rule merge_loop_read_cong)
  then have "merge_markdown_files env (src(p := Inl e)) files sep
           = merge_markdown_files env src files sep"
    by (simp only: merge_markdown_files_def)
  moreover have "read_markdown_file src p = []"
    using assms by (simp add: read_markdown_file_def)
  ultimately show ?thesis
    by (simp add: contribution_def merge_step_def)
qed

theorem empty_source_contributes_nothing_witness:
  "src_example ''E.md'' = Inr []
   \<and> merge_step good_dest src_example True 3 1 ''E.md'' \<lparr>written = ''x'', nwrites = 1\<rparr>
       = Inr \<lparr>written = ''x'', nwrites = 1\<rparr>
   \<and> merge_markdown_files good_dest (src_example(''E.md'' := Inl OtherReadError))
         [''A.md'', ''E.md'', ''B.md''] True
       = merge_markdown_files good_dest src_example [''A.md'', ''E.md'', ''B.md''] True"
  using empty_source_contributes_nothing
    [of src_example "''E.md''" True 3 1 good_dest "\<lparr>written = ''x'', nwrites = 1\<rparr>"
      OtherReadError "[''A.md'', ''E.md'', ''B.md'']"]
  by (simp add: src_example_def)

section \<open>Properties of the validation\<close>

subsection \<open>The suffix test on the path and on the name\<close>

lemma endswith_Cons:
  "endswith (c # cs) suf = (if length suf \<le> length cs then endswith cs suf else c # cs = suf)"
  by (auto simp: endswith_def Suc_diff_le)

lemma lower_slash [simp]: "lower_char CHR ''/'' = CHR ''/''"
  by (simp add: lower_char_def)

lemma md_no_slash: "lower s = ''.md'' \<Longrightarrow> CHR ''/'' \<notin> set s"
proof
  assume a: "lower s = ''.md''" and b: "CHR ''/'' \<in> set s"
  from b have "lower_char CHR ''/'' \<in> set (lower s)"
    unfolding lower_def by (metis image_eqI set_map)
  with a show False by simp
qed

lemma md_tail_no_slash: "lower (c # cs) = ''.md'' \<Longrightarrow> c \<noteq> CHR ''/'' \<and> CHR ''/'' \<notin> set cs"
  using md_no_slash [of "c # cs"] by auto

lemma endswith_short: "length s < length suf \<Longrightarrow> \<not> endswith s suf"
  by (simp add: endswith_def)

lemma basename_md: "endswith (lower (basename p)) ''.md'' = endswith (lower p) ''.md''"
proof (induction p)
  case Nil
  show ?case by simp
next
  case (Cons c cs)
  have step: "endswith (lower (c # cs)) ''.md'' =
      (if 3 \<le> length cs then endswith (lower cs) ''.md'' else lower (c # cs) = ''.md'')"
    using endswith_Cons [of "lower_char c" "lower cs" "''.md''"] by (simp add: lower_def)
  have short: "\<not> 3 \<le> length cs \<Longrightarrow> \<not> endswith (lower cs) ''.md''"
    by (rule endswith_short) (simp add: lower_def)
  show ?case
  proof (cases "CHR ''/'' \<in> set cs")
    case True
    then have "lower (c # cs) \<noteq> ''.md''"
      using md_tail_no_slash by blast
    with True Cons.IH step short show ?thesis by auto
  next
    case False
    show ?thesis
    proof (cases "c = CHR ''/''")
      case True
      then have "lower (c # cs) \<noteq> ''.md''"
        using md_tail_no_slash by blast
      with True False step short show ?thesis by auto
    next
      case c: False
      with False show ?thesis by simp
    qed
  qed
qed

lemma valid_markdown_path_code:
  "valid_markdown_path st p =
     (path_exists st p \<and> isfile st p \<and> endswith (lower p) ''.md'')"
  by (simp add: valid_markdown_path_def path_exists_def isfile_def basename_md)

lemma validate_loop_eq:
  "validate_loop st files valid_files warnings =
     (valid_files @ filter (valid_markdown_path st) files,
      warnings @ map (rejection_warning st) (filter (\<lambda>p. \<not> valid_markdown_path st p) files))"
proof (induction files arbitrary: valid_files warnings)
  case Nil
  show ?case by simp
next
  case (Cons p rest)
  show ?case
    by (simp add: Cons.IH valid_markdown_path_code rejection_warning_def path_exists_def isfile_def)
qed

lemma validate_input_files_eq:
  "validate_input_files st files =
     (sort (filter (valid_markdown_path st) files),
      map (rejection_warning st) (filter (\<lambda>p. \<not> valid_markdown_path st p) files))"
  by (simp add: validate_input_files_def validate_loop_eq)

subsection \<open>The loop\<close>

text \<open>
  Claim C5: \<^verbatim>\<open>validate_input_files\<close> returns exactly the input paths that exist, are
  regular files and whose name ends with \<^verbatim>\<open>.md\<close> case-insensitively (with their
  multiplicities), in ascending lexicographic order of the whole path, whatever the order
  of the input; every rejected path gets one warning, in input order, and the pass goes
  through the whole list.
\<close>

theorem validate_returns_sorted_valid_paths:
  "fst (validate_input_files st files) = sort (filter (valid_markdown_path st) files)
   \<and> sorted (fst (validate_input_files st files))
   \<and> mset (fst (validate_input_files st files)) = mset (filter (valid_markdown_path st) files)
   \<and> snd (validate_input_files st files) =
       map (rejection_warning st) (filter (\<lambda>p. \<not> valid_markdown_path st p) files)
   \<and> (mset files' = mset files \<longrightarrow>
        fst (validate_input_files st files') = fst (validate_input_files st files))"
proof -
  have "sort (filter (valid_markdown_path st) files') = sort (filter (valid_markdown_path st) files)"
    if "mset files' = mset files"
  proof (rule properties_for_sort)
    show "mset (sort (filter (valid_markdown_path st) files)) = mset (filter (valid_markdown_path st) files')"
      using that by simp
    show "sorted (sort (filter (valid_markdown_path st) files))"
      by simp
  qed
  then show ?thesis
    by (simp add: validate_input_files_eq)
qed

theorem validate_returns_sorted_valid_paths_witness:
  "mset [''a.MD'', ''notes.txt'', ''gone.md'', ''docs'', ''b.md'']
     = mset [''b.md'', ''docs'', ''a.MD'', ''gone.md'', ''notes.txt'']
   \<and> fst (validate_input_files stat_example [''a.MD'', ''notes.txt'', ''gone.md'', ''docs'', ''b.md''])
     = fst (validate_input_files stat_example [''b.md'', ''docs'', ''a.MD'', ''gone.md'', ''notes.txt''])
   \<and> validate_input_files stat_example [''b.md'', ''docs'', ''a.MD'', ''gone.md'', ''notes.txt'']
     = ([''a.MD'', ''b.md''],
        [IsNotAFile ''docs'', DoesNotExist ''gone.md'', IsNotMarkdown ''notes.txt''])"
proof -
  have m: "mset [''a.MD'', ''notes.txt'', ''gone.md'', ''docs'', ''b.md'']
     = mset [''b.md'', ''docs'', ''a.MD'', ''gone.md'', ''notes.txt'']"
    by simp
  have e: "validate_input_files stat_example [''b.md'', ''docs'', ''a.MD'', ''gone.md'', ''notes.txt'']
     = ([''a.MD'', ''b.md''],
        [IsNotAFile ''docs'', DoesNotExist ''gone.md'', IsNotMarkdown ''notes.txt''])"
    by code_simp
  show ?thesis
    using validate_returns_sorted_valid_paths [of stat_example "[''b.md'', ''docs'', ''a.MD'', ''gone.md'', ''notes.txt'']"
        "[''a.MD'', ''notes.txt'', ''gone.md'', ''docs'', ''b.md'']"] m e
    by simp
qed

section \<open>Properties of the configuration\<close>

subsection \<open>A broken override\<close>

text \<open>
  Claim C6: when the override file cannot be opened, has a suffix other than
  \<^verbatim>\<open>.yaml\<close>, \<^verbatim>\<open>.yml\<close> or \<^verbatim>\<open>.json\<close>, is rejected by its parser, or parses to
  something that is not a mapping, \<^verbatim>\<open>MergerConfig\<close> prints one warning and its
  configuration is the default configuration; whenever a warning is printed the
  configuration is the default one. The constructor has no error result: the handler
  catches every exception of the load.
\<close>

theorem broken_override_keeps_defaults:
  assumes "config_file \<noteq> []"
  shows
   "(open_config env config_file = None \<longrightarrow>
       MergerConfig_init env (Some config_file) = (default_config, [OpenFailed]))
  \<and> (open_config env config_file = Some content
       \<and> \<not> endswith config_file ''.yaml'' \<and> \<not> endswith config_file ''.yml''
       \<and> \<not> endswith config_file ''.json'' \<longrightarrow>
       MergerConfig_init env (Some config_file) = (default_config, [UnsupportedFormat]))
  \<and> (open_config env config_file = Some content
       \<and> (endswith config_file ''.yaml'' \<or> endswith config_file ''.yml'')
       \<and> yaml_safe_load env content = None \<longrightarrow>
       MergerConfig_init env (Some config_file) = (default_config, [ParseFailed]))
  \<and> (open_config env config_file = Some content
       \<and> \<not> endswith config_file ''.yaml'' \<and> \<not> endswith config_file ''.yml''
       \<and> endswith config_file ''.json'' \<and> json_load env content = None \<longrightarrow>
       MergerConfig_init env (Some config_file) = (default_config, [ParseFailed]))
  \<and> (open_config env config_file = Some content
       \<and> (endswith config_file ''.yaml'' \<or> endswith config_file ''.yml'')
       \<and> yaml_safe_load env content = Some doc \<and> \<not> isinstance_dict doc \<longrightarrow>
       MergerConfig_init env (Some config_file) = (default_config, [NotAMapping]))
  \<and> (open_config env config_file = Some content
       \<and> \<not> endswith config_file ''.yaml'' \<and> \<not> endswith config_file ''.yml''
       \<and> endswith config_file ''.json''
       \<and> json_load env content = Some doc \<and> \<not> isinstance_dict doc \<longrightarrow>
       MergerConfig_init env (Some config_file) = (default_config, [NotAMapping]))
  \<and> (snd (MergerConfig_init env (Some config_file)) \<noteq> [] \<longrightarrow>
       fst (MergerConfig_init env (Some config_file)) = default_config
       \<and> length (snd (MergerConfig_init env (Some config_file))) = 1)"
  using assms
  by (auto simp: MergerConfig_init_def load_config_file_def load_config_try_def
      deep_merge_document_def split: option.splits sum.splits)

theorem broken_override_keeps_defaults_witness:
  "''missing.yaml'' \<noteq> [] \<and> open_config env_broken ''missing.yaml'' = None
   \<and> MergerConfig_init env_broken (Some ''missing.yaml'') = (default_config, [OpenFailed])
   \<and> MergerConfig_init env_broken (Some ''config.txt'') = (default_config, [UnsupportedFormat])
   \<and> MergerConfig_init env_broken (Some ''bad.yaml'') = (default_config, [ParseFailed])
   \<and> MergerConfig_init env_broken (Some ''bad.json'') = (default_config, [ParseFailed])
   \<and> MergerConfig_init env_broken (Some ''scalar.yml'') = (default_config, [NotAMapping])
   \<and> MergerConfig_init env_broken (Some ''list.json'') = (default_config, [NotAMapping])"
  using broken_override_keeps_defaults [of "''missing.yaml''" env_broken "''missing.yaml''" VNone]
    broken_override_keeps_defaults [of "''config.txt''" env_broken "''config.txt''" VNone]
    broken_override_keeps_defaults [of "''bad.yaml''" env_broken "''bad.yaml''" VNone]
    broken_override_keeps_defaults [of "''bad.json''" env_broken "''bad.json''" VNone]
    broken_override_keeps_defaults [of "''scalar.yml''" env_broken "''scalar.yml''" "VStr ''text''"]
    broken_override_keeps_defaults [of "''list.json''" env_broken "''list.json''" "VList [VInt 1]"]
  by (simp add: env_broken_def endswith_def isinstance_dict_def)

section \<open>Properties of the collection\<close>

subsection \<open>A root that is not a directory\<close>

text \<open>
  On its own, \<^verbatim>\<open>collect_md_files_from_directory\<close> returns the empty list for a root that
  is not there or is a file, since \<^verbatim>\<open>os.walk\<close> ignores the error; the checks are made
  by \<^verbatim>\<open>main\<close> before it calls the function.
\<close>

lemma collect_nothing_to_walk:
  "collect_md_files_from_directory d None = []"
  "collect_md_files_from_directory d (Some FileN) = []"
  by (simp_all add: collect_md_files_from_directory_def)

text \<open>
  Claim C7, as stated, fails for the function it names: called on the root
  \<^verbatim>\<open>nowhere\<close>, which does not exist, and on the root \<^verbatim>\<open>b.md\<close>, which is a file,
  \<^verbatim>\<open>collect_md_files_from_directory\<close> raises nothing and returns the empty list.
\<close>

theorem collect_alone_returns_empty_list:
  "kind_at world_example ''nowhere'' = Missing
   \<and> collect_md_files_from_directory ''nowhere'' (tree_at world_example ''nowhere'') = []
   \<and> kind_at world_example ''b.md'' = RegularFile
   \<and> collect_md_files_from_directory ''b.md'' (tree_at world_example ''b.md'') = []"
  by (simp add: world_example_def stat_example_def collect_md_files_from_directory_def)

text \<open>
  Claim C7, amended: the directory branch of \<^verbatim>\<open>main\<close> fails with \<open>DirectoryNotFound\<close>
  when the root does not exist and with \<open>NotADirectory\<close> when it exists and is not a
  directory, before it calls the collector; the run then ends before the destination is
  opened, so nothing is written. The collector itself has no such check: on a root that
  cannot be scanned it returns the empty list.
\<close>

theorem directory_input_is_checked:
  "(kind_at w d = Missing \<longrightarrow>
      main_input_files w (FromDirectory d) = Inl DirectoryNotFound
      \<and> main w (a\<lparr>input_arg := FromDirectory d\<rparr>) = Fatal DirectoryNotFound)
   \<and> (kind_at w d \<noteq> Missing \<and> kind_at w d \<noteq> Directory \<longrightarrow>
      main_input_files w (FromDirectory d) = Inl NotADirectory
      \<and> main w (a\<lparr>input_arg := FromDirectory d\<rparr>) = Fatal NotADirectory)
   \<and> collect_md_files_from_directory d None = []
   \<and> collect_md_files_from_directory d (Some FileN) = []"
  by (simp add: main_def main_input_files_def path_exists_def isdir_def collect_nothing_to_walk)

theorem directory_input_is_checked_witness:
  "kind_at world_example ''nowhere'' = Missing
   \<and> main_input_files world_example (FromDirectory ''nowhere'') = Inl DirectoryNotFound
   \<and> main world_example
        \<lparr>input_arg = FromDirectory ''nowhere'', output_arg = ''out.md'',
         no_separators = False, force = True\<rparr> = Fatal DirectoryNotFound
   \<and> kind_at world_example ''b.md'' \<noteq> Missing \<and> kind_at world_example ''b.md'' \<noteq> Directory
   \<and> main_input_files world_example (FromDirectory ''b.md'') = Inl NotADirectory
   \<and> main world_example
        \<lparr>input_arg = FromDirectory ''b.md'', output_arg = ''out.md'',
         no_separators = False, force = True\<rparr> = Fatal NotADirectory"
  using directory_input_is_checked [of world_example "''nowhere''"
      "\<lparr>input_arg = FromDirectory ''nowhere'', output_arg = ''out.md'',
         no_separators = False, force = True\<rparr>"]
    directory_input_is_checked [of world_example "''b.md''"
      "\<lparr>input_arg = FromDirectory ''b.md'', output_arg = ''out.md'',
         no_separators = False, force = True\<rparr>"]
  by (simp add: world_example_def stat_example_def)

section \<open>Properties of the deep merge\<close>

subsection \<open>Keys and key paths\<close>

lemma dict_items [simp]: "isinstance_dict v \<Longrightarrow> VDict (items v) = v"
  by (cases v) (simp_all add: isinstance_dict_def)

lemma isinstance_dict_VDict [simp]: "isinstance_dict (VDict d)"
  by (simp add: isinstance_dict_def)

lemma deep_merge_keys: "fst ` set base \<subseteq> fst ` set (deep_merge base upd)"
  by (induction base upd rule: deep_merge.induct) (auto simp: dom_update simp del: AList.update.simps split: if_splits)

lemma deep_merge_untouched:
  "k \<notin> fst ` set upd \<Longrightarrow> map_of (deep_merge base upd) k = map_of base k"
  by (induction base upd rule: deep_merge.induct) (auto simp: update_conv' split: if_splits)

lemma has_path_Cons:
  "has_path (VDict d) (k # ks) = (k \<in> fst ` set d \<and> has_path (the (map_of d k)) ks)"
  by simp

lemma deep_merge_paths:
  "keeps_shape orig upd \<Longrightarrow> (\<forall>q. has_path (VDict orig) q \<longrightarrow> has_path (VDict cur) q) \<Longrightarrow>
   has_path (VDict orig) p \<Longrightarrow> has_path (VDict (deep_merge cur upd)) p"
proof (induction cur upd arbitrary: orig p rule: deep_merge.induct)
  case (1 base)
  then show ?case by simp
next
  case (2 cur key "value" rest)
  let ?cond = "isinstance_dict value \<and> key \<in> fst ` set cur \<and> isinstance_dict (the (map_of cur key))"
  let ?nv = "if ?cond then VDict (deep_merge (items (the (map_of cur key))) (items value)) else value"
  let ?cur' = "AList.update key ?nv cur"
  have dm: "deep_merge cur ((key, value) # rest) = deep_merge ?cur' rest"
    by simp
  have shape_rest: "keeps_shape orig rest"
    using "2.prems"(1) by simp
  have sub': "has_path (VDict ?cur') q" if hq: "has_path (VDict orig) q" for q
  proof (cases q)
    case Nil
    then show ?thesis by simp
  next
    case (Cons k ks)
    have cq: "has_path (VDict cur) (k # ks)"
      using "2.prems"(2) hq Cons by blast
    show ?thesis
    proof (cases "k = key")
      case False
      with cq show ?thesis
        unfolding Cons has_path_Cons by (simp add: update_conv' dom_update)
    next
      case True
      have kin: "key \<in> fst ` set ?cur'"
        by (simp add: dom_update)
      have val: "the (map_of ?cur' key) = ?nv"
        by (simp add: update_conv')
      have "has_path ?nv ks"
      proof (cases ks)
        case Nil
        then show ?thesis by simp
      next
        case (Cons k2 ks2)
        have o1: "key \<in> fst ` set orig" and o2: "has_path (the (map_of orig key)) (k2 # ks2)"
          using hq \<open>q = k # ks\<close> True Cons by simp_all
        have od: "isinstance_dict (the (map_of orig key))"
          using o2 by simp
        have c1: "key \<in> fst ` set cur" and c2: "has_path (the (map_of cur key)) (k2 # ks2)"
          using cq True Cons by simp_all
        have cd: "isinstance_dict (the (map_of cur key))"
          using c2 by simp
        have vd: "isinstance_dict value"
          and inner_shape: "keeps_shape (items (the (map_of orig key))) (items value)"
          using "2.prems"(1) o1 od by (simp_all split: if_splits)
        have cond: ?cond
          using vd c1 cd by simp
        have inner_sub: "has_path (VDict (items (the (map_of cur key)))) r"
          if hr: "has_path (VDict (items (the (map_of orig key)))) r" for r
        proof -
          have "has_path (VDict orig) (key # r)"
            using hr o1 od by simp
          then have "has_path (VDict cur) (key # r)"
            using "2.prems"(2) by blast
          then show ?thesis
            using cd by simp
        qed
        have "has_path (VDict (deep_merge (items (the (map_of cur key))) (items value))) (k2 # ks2)"
        proof (rule "2.IH"(1) [OF cond inner_shape])
          show "\<forall>q. has_path (VDict (items (the (map_of orig key)))) q \<longrightarrow>
                  has_path (VDict (items (the (map_of cur key)))) q"
            using inner_sub by blast
          show "has_path (VDict (items (the (map_of orig key)))) (k2 # ks2)"
            using o2 od by simp
        qed
        then show ?thesis
          using cond Cons by simp
      qed
      then show ?thesis
        unfolding \<open>q = k # ks\<close> True has_path_Cons using kin val by simp
    qed
  qed
  show ?case
  proof (cases ?cond)
    case True
    have "has_path (VDict (deep_merge (AList.update key
            (VDict (deep_merge (items (the (map_of cur key))) (items value))) cur) rest)) p"
    proof (rule "2.IH"(2) [OF True shape_rest _ "2.prems"(3)])
      show "\<forall>q. has_path (VDict orig) q \<longrightarrow>
        has_path (VDict (AList.update key
            (VDict (deep_merge (items (the (map_of cur key))) (items value))) cur)) q"
        using sub' True by simp
    qed
    then show ?thesis using True by simp
  next
    case False
    have "has_path (VDict (deep_merge (AList.update key value cur) rest)) p"
    proof (rule "2.IH"(3) [OF False shape_rest _ "2.prems"(3)])
      show "\<forall>q. has_path (VDict orig) q \<longrightarrow> has_path (VDict (AList.update key value cur)) q"
        using sub' False by simp
    qed
    then show ?thesis using False by auto
  qed
qed

lemma deep_merge_lookup:
  "distinct (map fst upd) \<Longrightarrow> map_of upd k = Some v \<Longrightarrow>
   map_of (deep_merge base upd) k =
     Some (if isinstance_dict v \<and> k \<in> fst ` set base \<and> isinstance_dict (the (map_of base k))
           then VDict (deep_merge (items (the (map_of base k))) (items v))
           else v)"
proof (induction upd arbitrary: base)
  case Nil
  then show ?case by simp
next
  case (Cons e rest)
  obtain key "value" where e: "e = (key, value)"
    by (cases e)
  let ?cond = "isinstance_dict value \<and> key \<in> fst ` set base \<and> isinstance_dict (the (map_of base key))"
  let ?nv = "if ?cond then VDict (deep_merge (items (the (map_of base key))) (items value)) else value"
  let ?base' = "AList.update key ?nv base"
  have dm: "deep_merge base (e # rest) = deep_merge ?base' rest"
    unfolding e by simp
  have notin: "key \<notin> fst ` set rest" and dist: "distinct (map fst rest)"
    using Cons.prems(1) e by auto
  show ?case
  proof (cases "k = key")
    case True
    then have v: "v = value"
      using Cons.prems(2) e by simp
    have "map_of (deep_merge ?base' rest) key = map_of ?base' key"
      using notin by (rule deep_merge_untouched)
    also have "\<dots> = Some ?nv"
      by (simp add: update_conv')
    finally show ?thesis
      unfolding dm True v .
  next
    case False
    then have look: "map_of rest k = Some v"
      using Cons.prems(2) e by simp
    have same1: "map_of ?base' k = map_of base k"
      using False by (simp add: update_conv')
    have same2: "k \<in> fst ` set ?base' \<longleftrightarrow> k \<in> fst ` set base"
      using False by (simp add: dom_update)
    show ?thesis
      unfolding dm using Cons.IH [OF dist look, of ?base'] same1 same2 by simp
  qed
qed

lemma deep_merge_nested_untouched:
  assumes "distinct (map fst upd)" and "map_of upd k = Some (VDict u)"
    and "map_of base k = Some (VDict b)" and "k2 \<notin> fst ` set u"
  shows "map_of (items (the (map_of (deep_merge base upd) k))) k2 = map_of b k2"
proof -
  have kin: "k \<in> fst ` set base"
    using assms(3) by (metis domI dom_map_of_conv_image_fst)
  have "map_of (deep_merge base upd) k = Some (VDict (deep_merge b u))"
    using deep_merge_lookup [OF assms(1) assms(2), of base] assms(3) kin by simp
  then show ?thesis
    using deep_merge_untouched [OF assms(4), of b] by simp
qed

lemma deep_merge_key_set:
  "fst ` set (deep_merge base upd) = fst ` set base \<union> fst ` set upd"
  by (induction base upd rule: deep_merge.induct)
     (auto simp: dom_update simp del: AList.update.simps split: if_splits)

text \<open>
  Claim C4, as stated, fails: an override may give a scalar to a key that holds a mapping
  in the defaults, and the scalar replaces the mapping. After the override
  \<^verbatim>\<open>{"separators": "off"}\<close> the key path \<^verbatim>\<open>separators.between_files\<close> of the
  default tree has no value any more, and \<^verbatim>\<open>get\<close> returns the fallback.
\<close>

theorem scalar_override_removes_paths:
  "has_path (VDict default_config) [''separators'', ''between_files'']
   \<and> \<not> has_path (VDict (deep_merge default_config [(''separators'', VStr ''off'')]))
         [''separators'', ''between_files'']
   \<and> MergerConfig_get default_config ''separators.between_files'' VNone = VStr ''---''
   \<and> MergerConfig_get (deep_merge default_config [(''separators'', VStr ''off'')])
         ''separators.between_files'' VNone = VNone"
  by (simp add: default_config_def MergerConfig_get_def isinstance_dict_def)

text \<open>
  Claim C4, amended: for every base tree and every override mapping, the keys after the
  merge are the keys of the base and those of the override, so no key is deleted; a key
  that the override does not mention keeps its value; a key that the override mentions
  (once, as in a Python dict) recurses when both values are mappings and otherwise takes
  the override's value; under a mapping override, the entries the inner override does not
  mention keep their values; and when the override gives a mapping wherever it gives a
  value to a key that holds a mapping, every key path of the base still has a value after
  the merge. The override of \<^verbatim>\<open>separators.between_files\<close> alone changes that entry of
  the default configuration and nothing else.
\<close>

theorem deep_merge_keeps_defaults:
  "fst ` set (deep_merge base upd) = fst ` set base \<union> fst ` set upd
   \<and> (\<forall>k. k \<notin> fst ` set upd \<longrightarrow> map_of (deep_merge base upd) k = map_of base k)
   \<and> (\<forall>k v. distinct (map fst upd) \<and> map_of upd k = Some v \<longrightarrow>
         map_of (deep_merge base upd) k =
           Some (if isinstance_dict v \<and> k \<in> fst ` set base
                    \<and> isinstance_dict (the (map_of base k))
                 then VDict (deep_merge (items (the (map_of base k))) (items v))
                 else v))
   \<and> (\<forall>k u b k2. distinct (map fst upd) \<and> map_of upd k = Some (VDict u)
         \<and> map_of base k = Some (VDict b) \<and> k2 \<notin> fst ` set u \<longrightarrow>
         map_of (items (the (map_of (deep_merge base upd) k))) k2 = map_of b k2)
   \<and> (keeps_shape base upd \<longrightarrow>
        (\<forall>p. has_path (VDict base) p \<longrightarrow> has_path (VDict (deep_merge base upd)) p))
   \<and> deep_merge default_config only_between_files =
       [(''output'', VDict
           [(''encoding'', VStr ''utf-8''),
            (''line_ending'', VStr [nl]),
            (''add_toc'', VBool False),
            (''add_timestamps'', VBool False)]),
        (''processing'', VDict
           [(''skip_empty_files'', VBool True),
            (''normalize_line_endings'', VBool True),
            (''remove_duplicate_headers'', VBool False)]),
        (''separators'', VDict
           [(''between_files'', VStr ''***''),
            (''add_file_headers'', VBool True),
            (''header_format'', VStr ''<!-- Quelle: {filepath} -->'')]),
        (''filters'', VDict
           [(''exclude_patterns'', VList [VStr ''.git'', VStr ''__pycache__'', VStr ''.DS_Store'']),
            (''include_only'', VList [VStr ''.md'']),
            (''max_file_size_mb'', VInt 10)])]"
proof (intro conjI allI impI)
  show "fst ` set (deep_merge base upd) = fst ` set base \<union> fst ` set upd"
    by (rule deep_merge_key_set)
  show "map_of (deep_merge base upd) k = map_of base k" if "k \<notin> fst ` set upd" for k
    using that by (rule deep_merge_untouched)
  show "map_of (deep_merge base upd) k =
           Some (if isinstance_dict v \<and> k \<in> fst ` set base
                    \<and> isinstance_dict (the (map_of base k))
                 then VDict (deep_merge (items (the (map_of base k))) (items v))
                 else v)"
    if "distinct (map fst upd) \<and> map_of upd k = Some v" for k v
    using that by (simp add: deep_merge_lookup)
  show "map_of (items (the (map_of (deep_merge base upd) k))) k2 = map_of b k2"
    if "distinct (map fst upd) \<and> map_of upd k = Some (VDict u)
         \<and> map_of base k = Some (VDict b) \<and> k2 \<notin> fst ` set u" for k u b k2
    using that by (simp add: deep_merge_nested_untouched)
  show "has_path (VDict (deep_merge base upd)) p"
    if "keeps_shape base upd" and "has_path (VDict base) p" for p
    using that(1) _ that(2) by (rule deep_merge_paths) simp
  show "deep_merge default_config only_between_files = 
       [(''output'', VDict
           [(''encoding'', VStr ''utf-8''),
            (''line_ending'', VStr [nl]),
            (''add_toc'', VBool False),
            (''add_timestamps'', VBool False)]),
        (''processing'', VDict
           [(''skip_empty_files'', VBool True),
            (''normalize_line_endings'', VBool True),
            (''remove_duplicate_headers'', VBool False)]),
        (''separators'', VDict
           [(''between_files'', VStr ''***''),
            (''add_file_headers'', VBool True),
            (''header_format'', VStr ''<!-- Quelle: {filepath} -->'')]),
        (''filters'', VDict
           [(''exclude_patterns'', VList [VStr ''.git'', VStr ''__pycache__'', VStr ''.DS_Store'']),
            (''include_only'', VList [VStr ''.md'']),
            (''max_file_size_mb'', VInt 10)])]"
    by (simp add: default_config_def only_between_files_def isinstance_dict_def)
qed

theorem deep_merge_keeps_defaults_witness:
  "''output'' \<notin> fst ` set only_between_files
   \<and> map_of (deep_merge default_config only_between_files) ''output'' = map_of default_config ''output''
   \<and> distinct (map fst only_between_files)
   \<and> map_of only_between_files ''separators'' = Some (VDict [(''between_files'', VStr ''***'')])
   \<and> map_of default_config ''separators'' = Some (VDict default_separators)
   \<and> map_of (deep_merge default_config only_between_files) ''separators''
        = Some (VDict (deep_merge default_separators [(''between_files'', VStr ''***'')]))
   \<and> ''header_format'' \<notin> fst ` set [(''between_files'', VStr ''***'')]
   \<and> map_of (items (the (map_of (deep_merge default_config only_between_files) ''separators'')))
        ''header_format'' = map_of default_separators ''header_format''
   \<and> distinct (map fst [(''between_files'', VStr ''***'')])
   \<and> map_of (deep_merge default_separators [(''between_files'', VStr ''***'')]) ''between_files''
        = Some (VStr ''***'')
   \<and> keeps_shape default_config only_between_files
   \<and> has_path (VDict default_config) [''separators'', ''header_format'']
   \<and> has_path (VDict (deep_merge default_config only_between_files)) [''separators'', ''header_format'']"
proof -
  note top = deep_merge_keeps_defaults [of default_config only_between_files]
  note inner = deep_merge_keeps_defaults [of default_separators "[(''between_files'', VStr ''***'')]"]
  have a: "''output'' \<notin> fst ` set only_between_files"
    by (simp add: only_between_files_def)
  have d: "distinct (map fst only_between_files)"
    by (simp add: only_between_files_def)
  have u: "map_of only_between_files ''separators'' = Some (VDict [(''between_files'', VStr ''***'')])"
    by (simp add: only_between_files_def)
  have b: "map_of default_config ''separators'' = Some (VDict default_separators)"
    by (simp add: default_config_def default_separators_def)
  have kin: "''separators'' \<in> fst ` set default_config"
    by (simp add: default_config_def)
  have n: "''header_format'' \<notin> fst ` set [(''between_files'', VStr ''***'')]"
    by simp
  have sh: "keeps_shape default_config only_between_files"
    by (simp add: only_between_files_def default_config_def isinstance_dict_def)
  have hp: "has_path (VDict default_config) [''separators'', ''header_format'']"
    by (simp add: default_config_def isinstance_dict_def)
  have r1: "map_of (deep_merge default_config only_between_files) ''output'' = map_of default_config ''output''"
    using top a by blast
  have "map_of (deep_merge default_config only_between_files) ''separators'' =
     Some (if isinstance_dict (VDict [(''between_files'', VStr ''***'')])
              \<and> ''separators'' \<in> fst ` set default_config
              \<and> isinstance_dict (the (map_of default_config ''separators''))
           then VDict (deep_merge (items (the (map_of default_config ''separators'')))
                  (items (VDict [(''between_files'', VStr ''***'')])))
           else VDict [(''between_files'', VStr ''***'')])"
    using top d u by blast
  then have r2: "map_of (deep_merge default_config only_between_files) ''separators''
        = Some (VDict (deep_merge default_separators [(''between_files'', VStr ''***'')]))"
    using b kin by (simp add: isinstance_dict_def)
  have r3: "map_of (items (the (map_of (deep_merge default_config only_between_files) ''separators'')))
        ''header_format'' = map_of default_separators ''header_format''"
    using top d u b n by blast
  have "map_of (deep_merge default_separators [(''between_files'', VStr ''***'')]) ''between_files''
     = Some (if isinstance_dict (VStr ''***'') \<and> ''between_files'' \<in> fst ` set default_separators
                \<and> isinstance_dict (the (map_of default_separators ''between_files''))
             then VDict (deep_merge (items (the (map_of default_separators ''between_files'')))
                    (items (VStr ''***'')))
             else VStr ''***'')"
    using inner by simp
  then have r4: "map_of (deep_merge default_separators [(''between_files'', VStr ''***'')]) ''between_files''
        = Some (VStr ''***'')"
    by (simp add: isinstance_dict_def)
  have r5: "has_path (VDict (deep_merge default_config only_between_files)) [''separators'', ''header_format'']"
    using top sh hp by blast
  show ?thesis
    using a r1 d u b r2 n r3 r4 sh hp r5 by simp
qed

section \<open>Properties of the traversal\<close>

subsection \<open>The walk against the traversal of the specification\<close>

lemma sort_map_fst: "sort (map fst ds) = map fst (sort_key fst ds)"
proof (rule properties_for_sort)
  show "mset (map fst (sort_key fst ds)) = mset (map fst ds)"
    by simp
  show "sorted (map fst (sort_key fst ds))"
    by (rule sorted_sort_key)
qed

lemma concat_map_concat:
  "concat (map g (concat yss)) = concat (map (\<lambda>ys. concat (map g ys)) yss)"
  by (induction yss) simp_all

lemma concat_map_map:
  "concat (map g (map h xs)) = concat (map (\<lambda>x. g (h x)) xs)"
  by (induction xs) simp_all

lemma walk_refines_spec:
  "distinct_names n \<Longrightarrow>
   concat (map (\<lambda>(root_path, dirs, files).
                    map (join root_path)
                      (filter (\<lambda>file. endswith (lower file) ''.md'') (sort files))) (walk sort d n)) = from_directory_spec d n"
proof (induction d n rule: from_directory_spec.induct)
  case (1 root_path)
  show ?case by simp
next
  case (2 root_path es)
  let ?g = "\<lambda>(root_path, dirs :: string list, files).
                    map (join root_path)
                      (filter (\<lambda>file. endswith (lower file) ''.md'') (sort files))"
  let ?D = "filter (\<lambda>e. isdir_node (snd e)) es"
  let ?h = "\<lambda>dirname. case map_of es dirname of
                                  Some sub \<Rightarrow> walk sort (join root_path dirname) sub
                                | None \<Rightarrow> []"
  have dist: "distinct (map fst es)" and subs: "\<forall>e \<in> set es. distinct_names (snd e)"
    using "2.prems" by (simp_all add: list_all_iff)
  have each: "concat (map ?g (?h (fst e))) = from_directory_spec (join root_path (fst e)) (snd e)"
    if e: "e \<in> set (sort_key fst ?D)" for e
  proof -
    have mem: "e \<in> set es"
      using e by simp
    then have "(fst e, snd e) \<in> set es"
      by simp
    then have look: "map_of es (fst e) = Some (snd e)"
      using dist by (rule map_of_is_SomeI [rotated])
    have "concat (map ?g (walk sort (join root_path (fst e)) (snd e)))
        = from_directory_spec (join root_path (fst e)) (snd e)"
      using "2.IH" [OF e, of "fst e" "snd e"] subs mem by simp
    then show ?thesis
      using look by simp
  qed
  have w: "walk sort root_path (DirN es) =
      (root_path, map fst ?D, map fst (filter (\<lambda>e. \<not> isdir_node (snd e)) es))
      # concat (map ?h (sort (map fst ?D)))"
    by (simp add: Let_def)
  have "concat (map ?g (walk sort root_path (DirN es))) =
      map (join root_path)
        (filter (\<lambda>file. endswith (lower file) ''.md'')
           (sort (map fst (filter (\<lambda>e. \<not> isdir_node (snd e)) es))))
      @ concat (map ?g (concat (map ?h (sort (map fst ?D)))))"
    unfolding w by simp
  also have "concat (map ?g (concat (map ?h (sort (map fst ?D)))))
     = concat (map (\<lambda>e. concat (map ?g (?h (fst e)))) (sort_key fst ?D))"
    unfolding concat_map_concat sort_map_fst concat_map_map ..
  also have "\<dots> = concat (map (\<lambda>e. from_directory_spec (join root_path (fst e)) (snd e))
                        (sort_key fst ?D))"
  proof -
    have "map (\<lambda>e. concat (map ?g (?h (fst e)))) (sort_key fst ?D)
        = map (\<lambda>e. from_directory_spec (join root_path (fst e)) (snd e)) (sort_key fst ?D)"
      by (rule map_cong [OF refl]) (rule each)
    then show ?thesis by (rule arg_cong)
  qed
  finally show ?case
    by (simp add: filter_sort case_prod_unfold)
qed

text \<open>
  Claim C8: on every directory tree (no directory listing a name twice),
  \<^verbatim>\<open>collect_md_files_from_directory\<close> returns what the traversal of the specification
  returns: at each level the files whose names end with \<^verbatim>\<open>.md\<close> case-insensitively, in
  ascending order of name, then the subdirectories in ascending order of name, each
  traversed the same way; every path is the root joined with the names on the way. In
  particular the tree with \<^verbatim>\<open>b.md\<close>, \<^verbatim>\<open>a.md\<close> and \<^verbatim>\<open>sub/c.md\<close> under \<^verbatim>\<open>docs\<close>
  yields \<^verbatim>\<open>docs/a.md\<close>, \<^verbatim>\<open>docs/b.md\<close>, \<^verbatim>\<open>docs/sub/c.md\<close>.
\<close>

theorem collect_follows_sorted_traversal:
  "(distinct_names node \<longrightarrow>
      collect_md_files_from_directory directory (Some node) = from_directory_spec directory node)
   \<and> collect_md_files_from_directory ''docs'' (Some tree_example)
       = [''docs/a.md'', ''docs/b.md'', ''docs/sub/c.md'']"
proof (intro conjI impI)
  assume "distinct_names node"
  then show "collect_md_files_from_directory directory (Some node)
      = from_directory_spec directory node"
    by (simp add: collect_md_files_from_directory_def walk_refines_spec)
next
  show "collect_md_files_from_directory ''docs'' (Some tree_example)
       = [''docs/a.md'', ''docs/b.md'', ''docs/sub/c.md'']"
    by code_simp
qed

theorem collect_follows_sorted_traversal_witness:
  "distinct_names tree_mixed
   \<and> collect_md_files_from_directory ''docs'' (Some tree_mixed) = from_directory_spec ''docs'' tree_mixed
   \<and> collect_md_files_from_directory ''docs'' (Some tree_mixed)
       = [''docs/a.md'', ''docs/b.MD'', ''docs/a/x.Md'', ''docs/a/y.md'', ''docs/z/q.md'']"
proof -
  have d: "distinct_names tree_mixed"
    by (simp add: tree_mixed_def)
  have v: "collect_md_files_from_directory ''docs'' (Some tree_mixed)
       = [''docs/a.md'', ''docs/b.MD'', ''docs/a/x.Md'', ''docs/a/y.md'', ''docs/z/q.md'']"
    by code_simp
  show ?thesis
    using collect_follows_sorted_traversal [of tree_mixed "''docs''"] d v by blast
qed

end
